theory Spec2Isabelle
  imports Complex_Main
begin

section \<open>Arrays, errors and the random generator\<close>

text \<open>
  A numpy array is its shape together with its elements in row-major order. The arrays of
  this development hold float64 values, which are idealised as real numbers: rounding,
  overflow, infinities and NaN are outside the model, and so are arrays of an integer dtype.
\<close>

record 'a ndarray =
  shape :: "nat list"
  vals :: "'a list"

definition wf_array :: "'a ndarray \<Rightarrow> bool" where
  "wf_array a \<longleftrightarrow> length (vals a) = prod_list (shape a)"

text \<open>The exceptions the code raises, each with its message (shortened where it is long).\<close>

datatype error =
    ValueError string
  | UnitsError string
  | KeyError string
  | IndexError string
  | InputParameterError string
  | ModelError string

text \<open>
  \<open>np.random.default_rng(seed)\<close>: the generator is the sequence of unit variates that the
  seed determines, and the position of the next one. Drawing advances the position.
\<close>

record rng =
  variates :: "nat \<Rightarrow> real"
  pos :: nat

definition uniform_draws :: "real \<Rightarrow> real \<Rightarrow> nat \<Rightarrow> rng \<Rightarrow> real list \<times> rng" where
  "uniform_draws low high n g =
     (map (\<lambda>k. low + (high - low) * variates g (pos g + k)) [0..<n],
      g\<lparr>pos := pos g + n\<rparr>)"


section \<open>Noise: \<open>apply_poisson_noise\<close>\<close>



section \<open>Source tables: \<open>make_random_models_table\<close>\<close>

text \<open>
  A table is the list of its named columns, in column order. A table without columns has
  no rows; otherwise its row count is the length of its first column.
\<close>

type_synonym table = "(string \<times> real list) list"

definition colnames :: "table \<Rightarrow> string list" where
  "colnames t = map fst t"

definition table_len :: "table \<Rightarrow> nat" where
  "table_len t = (case t of [] \<Rightarrow> 0 | (name, col) # rest \<Rightarrow> length col)"

text \<open>
  \<open>table[name] = col\<close>: a column of an existing name is replaced in place, a new one is
  appended; a table that already has columns refuses a column of another length.
\<close>

fun replace_column :: "string \<Rightarrow> real list \<Rightarrow> table \<Rightarrow> table" where
  "replace_column name col [] = [(name, col)]"
| "replace_column name col ((name', col') # rest) =
     (if name' = name then (name, col) # rest
      else (name', col') # replace_column name col rest)"

definition set_column :: "table \<Rightarrow> string \<Rightarrow> real list \<Rightarrow> error + table" where
  "set_column t name col =
     (if t \<noteq> [] \<and> length col \<noteq> table_len t
      then Inl (ValueError ''Inconsistent data column lengths'')
      else Inr (replace_column name col t))"



section \<open>Flux and amplitude in the Gaussian and PRF wrappers\<close>

text \<open>
  A column of the table if it is there, else the model's default \<open>1.0\<close>, which numpy
  broadcasts over the rows.
\<close>

definition column_or_default :: "table \<Rightarrow> string \<Rightarrow> real list" where
  "column_or_default t name =
     (case map_of t name of Some col \<Rightarrow> col | None \<Rightarrow> replicate (table_len t) 1)"

text \<open>\<open>flux / (2.0 * np.pi * xstd * ystd)\<close>, for one row.\<close>

definition gaussian_amplitude :: "real \<Rightarrow> real \<Rightarrow> real \<Rightarrow> real" where
  "gaussian_amplitude flux xstd ystd = flux / (2 * pi * xstd * ystd)"

text \<open>\<open>amplitude * (2.0 * np.pi * sigma * sigma)\<close>, for one row.\<close>

definition prf_flux :: "real \<Rightarrow> real \<Rightarrow> real" where
  "prf_flux amplitude sigma = amplitude * (2 * pi * sigma * sigma)"

text \<open>
  The table that \<open>make_gaussian_sources_image\<close> hands to the renderer: a copy with an
  \<open>amplitude\<close> column computed from \<open>flux\<close>, when there is \<open>flux\<close> and no
  \<open>amplitude\<close>.
\<close>

definition gaussian_source_table :: "table \<Rightarrow> error + table" where
  "gaussian_source_table source_table =
     (let xstd = column_or_default source_table ''x_stddev'';
          ystd = column_or_default source_table ''y_stddev''
      in case map_of source_table ''flux'' of
           Some flux \<Rightarrow>
             (if ''amplitude'' \<notin> set (colnames source_table)
              then set_column source_table ''amplitude''
                     (map (\<lambda>(f, x, y). gaussian_amplitude f x y) (zip flux (zip xstd ystd)))
              else Inr source_table)
         | None \<Rightarrow> Inr source_table)"

text \<open>
  The table that \<open>make_gaussian_prf_sources_image\<close> hands to the renderer: a copy with a
  \<open>flux\<close> column computed from \<open>amplitude\<close>, when there is \<open>amplitude\<close> and no
  \<open>flux\<close>.
\<close>

definition prf_source_table :: "table \<Rightarrow> error + table" where
  "prf_source_table source_table =
     (let sigma = column_or_default source_table ''sigma''
      in case map_of source_table ''amplitude'' of
           Some amplitude \<Rightarrow>
             (if ''flux'' \<notin> set (colnames source_table)
              then set_column source_table ''flux''
                     (map (\<lambda>(a, s). prf_flux a s) (zip amplitude sigma))
              else Inr source_table)
         | None \<Rightarrow> Inr source_table)"

section \<open>Element-wise arithmetic with numpy's broadcasting\<close>

text \<open>
  Two shapes are aligned at their last axes; axes of equal extent pair up, an axis of
  extent 1 is stretched, anything else is the error "operands could not be broadcast
  together". \<open>broadcast_shapes_rev\<close> works on the reversed shapes.
\<close>

fun broadcast_shapes_rev :: "nat list \<Rightarrow> nat list \<Rightarrow> nat list option" where
  "broadcast_shapes_rev [] ys = Some ys"
| "broadcast_shapes_rev xs [] = Some xs"
| "broadcast_shapes_rev (x # xs) (y # ys) =
     (if x = y \<or> y = 1 then map_option ((#) x) (broadcast_shapes_rev xs ys)
      else if x = 1 then map_option ((#) y) (broadcast_shapes_rev xs ys)
      else None)"

definition broadcast_shapes :: "nat list \<Rightarrow> nat list \<Rightarrow> nat list option" where
  "broadcast_shapes s t = map_option rev (broadcast_shapes_rev (rev s) (rev t))"

definition pad_shape :: "nat \<Rightarrow> nat list \<Rightarrow> nat list" where
  "pad_shape n s = replicate (n - length s) 1 @ s"

text \<open>
  The elements of an array of shape \<open>s\<close> stretched to the shape \<open>t\<close> of the same rank:
  along each axis, index \<open>i\<close> of the target reads index \<open>i\<close> of the source, or index 0
  where the source's extent is 1.
\<close>

fun stretch :: "nat list \<Rightarrow> nat list \<Rightarrow> 'a list \<Rightarrow> 'a list" where
  "stretch (s # ss) (t # ts) v =
     concat (map (\<lambda>i. stretch ss ts
                         (take (prod_list ss) (drop ((if s = 1 then 0 else i) * prod_list ss) v)))
                 [0..<t])"
| "stretch ss ts v = v"

definition broadcast_to :: "'a ndarray \<Rightarrow> nat list \<Rightarrow> 'a list" where
  "broadcast_to a t = stretch (pad_shape (length t) (shape a)) t (vals a)"

definition np_add :: "real ndarray \<Rightarrow> real ndarray \<Rightarrow> error + real ndarray" where
  "np_add a b =
     (case broadcast_shapes (shape a) (shape b) of
        None \<Rightarrow> Inl (ValueError ''operands could not be broadcast together'')
      | Some t \<Rightarrow>
          Inr \<lparr>shape = t, vals = map (\<lambda>(x, y). x + y) (zip (broadcast_to a t) (broadcast_to b t))\<rparr>)"

definition np_zeros :: "nat list \<Rightarrow> real ndarray" where
  "np_zeros s = \<lparr>shape = s, vals = replicate (prod_list s) 0\<rparr>"

definition np_square :: "real ndarray \<Rightarrow> real ndarray" where
  "np_square a = a\<lparr>vals := map (\<lambda>x. x ^ 2) (vals a)\<rparr>"

definition np_sqrt :: "real ndarray \<Rightarrow> real ndarray" where
  "np_sqrt a = a\<lparr>vals := map sqrt (vals a)\<rparr>"

definition np_maximum :: "real ndarray \<Rightarrow> real \<Rightarrow> real ndarray" where
  "np_maximum a c = a\<lparr>vals := map (\<lambda>x. max x c) (vals a)\<rparr>"

text \<open>\<open>a[mask] /= b[mask]\<close> and \<open>a[mask] = c\<close>, for arrays of one shape.\<close>

definition masked_idiv :: "bool list \<Rightarrow> real ndarray \<Rightarrow> real ndarray \<Rightarrow> real ndarray" where
  "masked_idiv msk a b =
     a\<lparr>vals := map (\<lambda>(m, x, y). if m then x / y else x) (zip msk (zip (vals a) (vals b)))\<rparr>"

definition masked_fill :: "bool list \<Rightarrow> real ndarray \<Rightarrow> real \<Rightarrow> real ndarray" where
  "masked_fill msk a c = a\<lparr>vals := map (\<lambda>(m, x). if m then c else x) (zip msk (vals a))\<rparr>"

section \<open>Total error: \<open>calc_total_error\<close>\<close>

text \<open>
  The unit algebra is astropy's. What the function uses of it is the product of two units
  and the two count units; they are the fields of \<open>units\<close>, over any type \<open>'u\<close> of units.
  An input carries a unit (\<open>Some\<close>) or not (\<open>None\<close>): \<open>hasattr(x, 'unit')\<close>.
\<close>

record 'u units =
  umul :: "'u \<Rightarrow> 'u \<Rightarrow> 'u"
  electron :: 'u
  photon :: 'u

text \<open>The effective gain is a Python number or an array.\<close>

datatype gain = Scalar real | Array "real ndarray"

text \<open>\<open>isiterable\<close>: a number is not iterable, and neither is an array of rank 0.\<close>

fun isiterable :: "gain \<Rightarrow> bool" where
  "isiterable (Scalar c) = False"
| "isiterable (Array a) = (shape a \<noteq> [])"

fun asanyarray :: "gain \<Rightarrow> real ndarray" where
  "asanyarray (Scalar c) = \<lparr>shape = [], vals = [c]\<rparr>"
| "asanyarray (Array a) = a"

text \<open>
  The unit checks. The result is \<open>use_units\<close>.
\<close>

definition check_units :: "'u units \<Rightarrow> 'u option \<Rightarrow> 'u option \<Rightarrow> 'u option \<Rightarrow> error + bool" where
  "check_units U data_unit bkg_unit gain_unit =
     (let has_unit = [data_unit \<noteq> None, bkg_unit \<noteq> None, gain_unit \<noteq> None];
          use_units = list_all id has_unit
      in if list_ex id has_unit \<and> \<not> use_units
         then Inl (ValueError ''If any of data, bkg_error, or effective_gain has units, then they all must all have units.'')
         else case (data_unit, bkg_unit, gain_unit) of
                (Some du, Some bu, Some gu) \<Rightarrow>
                  (if du \<noteq> bu then Inl (ValueError ''data and bkg_error must have the same units.'')
                   else if umul U du gu \<notin> set [electron U, photon U]
                   then Inl (UnitsError ''(data * effective_gain) must have count units'')
                   else Inr use_units)
              | _ \<Rightarrow> Inr use_units)"

text \<open>The gain as an array of the data's shape, or the shape error.\<close>

definition gain_array :: "real ndarray \<Rightarrow> gain \<Rightarrow> error + real ndarray" where
  "gain_array data effective_gain =
     (if \<not> isiterable effective_gain
      then np_add (np_zeros (shape data)) (asanyarray effective_gain)
      else let g = asanyarray effective_gain
           in if shape g \<noteq> shape data
              then Inl (ValueError ''If input effective_gain is 2D, then it must have the same shape as the input data.'')
              else Inr g)"

definition check_gain :: "real ndarray \<Rightarrow> error + real ndarray" where
  "check_gain g =
     (if \<exists>x \<in> set (vals g). x < 0
      then Inl (ValueError ''effective_gain must be non-zero everywhere.'')
      else Inr g)"

text \<open>
  The source variance: a copy of the data, divided by the gain where the gain is not zero,
  set to zero where it is, and then raised to zero where it is negative.
\<close>

definition source_variance :: "real ndarray \<Rightarrow> real ndarray \<Rightarrow> real ndarray" where
  "source_variance data g =
     (let sv = data;
          msk = map (\<lambda>x. x \<noteq> 0) (vals g);
          sv = masked_idiv msk sv g;
          sv = masked_fill (map Not msk) sv 0
      in np_maximum sv 0)"

definition calc_total_error ::
  "'u units \<Rightarrow> real ndarray \<times> 'u option \<Rightarrow> real ndarray \<times> 'u option \<Rightarrow> gain \<times> 'u option
     \<Rightarrow> error + (real ndarray \<times> 'u option)" where
  "calc_total_error U data_in bkg_in gain_in =
     (case (data_in, bkg_in, gain_in) of
        ((data, data_unit), (bkg_error, bkg_unit), (effective_gain, gain_unit)) \<Rightarrow>
     (case check_units U data_unit bkg_unit gain_unit of
        Inl e \<Rightarrow> Inl e
      | Inr use_units \<Rightarrow>
     (case gain_array data effective_gain of
        Inl e \<Rightarrow> Inl e
      | Inr g \<Rightarrow>
     (case check_gain g of
        Inl e \<Rightarrow> Inl e
      | Inr g \<Rightarrow>
     (case np_add (np_square bkg_error) (source_variance data g) of
        Inl e \<Rightarrow> Inl e
      | Inr tot \<Rightarrow> Inr (np_sqrt tot, if use_units then data_unit else None))))))"

text \<open>
  What the specification says of the inputs and of the result, for the theorems below. The
  shot-noise term of the specification: \<open>I/g\<close>, but zero where \<open>g = 0\<close> and zero where
  \<open>I/g\<close> would be negative.
\<close>

definition shot_noise_spec :: "real \<Rightarrow> real \<Rightarrow> real" where
  "shot_noise_spec I g = (if g = 0 then 0 else if I / g < 0 then 0 else I / g)"

text \<open>The gain at pixel \<open>i\<close>: a number is the same at every pixel.\<close>

fun gain_at :: "gain \<Rightarrow> nat \<Rightarrow> real" where
  "gain_at (Scalar c) i = c"
| "gain_at (Array a) i = vals a ! i"

text \<open>
  A valid gain is a non-negative number, or an array of the data's shape with no negative
  element. Valid units are none at all, or all three with the data's unit on the background
  error and a product of the data's and the gain's unit that is a count unit.
\<close>

fun valid_gain :: "real ndarray \<Rightarrow> gain \<Rightarrow> bool" where
  "valid_gain data (Scalar c) = (0 \<le> c)"
| "valid_gain data (Array a) = (wf_array a \<and> shape a = shape data \<and> (\<forall>x \<in> set (vals a). 0 \<le> x))"

definition units_ok :: "'u units \<Rightarrow> 'u option \<Rightarrow> 'u option \<Rightarrow> 'u option \<Rightarrow> bool" where
  "units_ok U du bu gu \<longleftrightarrow>
     (du = None \<and> bu = None \<and> gu = None) \<or>
     (\<exists>u w. du = Some u \<and> bu = Some u \<and> gu = Some w \<and>
            (umul U u w = electron U \<or> umul U u w = photon U))"

text \<open>The elements of the gain once it has the data's shape.\<close>

fun gain_values :: "real ndarray \<Rightarrow> gain \<Rightarrow> real list" where
  "gain_values data (Scalar c) = replicate (length (vals data)) c"
| "gain_values data (Array a) = vals a"


section \<open>The total error on a heap of arrays\<close>

text \<open>
  Python passes arrays by reference, and \<open>calc_total_error\<close> updates one array in place.
  Here the arrays live in a heap, a list of arrays addressed by position; a new array is
  appended. A Python number is passed by value. Arrays that the function creates and drops
  within one expression (the boolean masks, \<open>bkg_error**2\<close>, the zeros) are values; every
  array that gets a name or is returned is allocated.
\<close>

type_synonym heap = "real ndarray list"

definition alloc :: "heap \<Rightarrow> real ndarray \<Rightarrow> heap \<times> nat" where
  "alloc h a = (h @ [a], length h)"

datatype gain_ref = ScalarVal real | ArrayRef nat

fun deref_gain :: "heap \<Rightarrow> gain_ref \<Rightarrow> gain" where
  "deref_gain h (ScalarVal c) = Scalar c"
| "deref_gain h (ArrayRef r) = Array (h ! r)"

text \<open>
  \<open>np.zeros(data.shape) + effective_gain\<close> is a new array; \<open>np.asanyarray\<close> of an array
  is that same array.
\<close>

fun gain_array_heap :: "heap \<Rightarrow> nat \<Rightarrow> gain_ref \<Rightarrow> heap \<times> (error + nat)" where
  "gain_array_heap h data (ScalarVal c) =
     (case np_add (np_zeros (shape (h ! data))) (asanyarray (Scalar c)) of
        Inl e \<Rightarrow> (h, Inl e)
      | Inr g \<Rightarrow> (case alloc h g of (h', r) \<Rightarrow> (h', Inr r)))"
| "gain_array_heap h data (ArrayRef r) =
     (if \<not> isiterable (Array (h ! r))
      then (case np_add (np_zeros (shape (h ! data))) (h ! r) of
              Inl e \<Rightarrow> (h, Inl e)
            | Inr g \<Rightarrow> (case alloc h g of (h', r') \<Rightarrow> (h', Inr r')))
      else if shape (h ! r) \<noteq> shape (h ! data)
      then (h, Inl (ValueError ''If input effective_gain is 2D, then it must have the same shape as the input data.''))
      else (h, Inr r))"

text \<open>
  \<open>source_variance = data.copy()\<close> allocates; the two masked assignments update that
  array where it is; \<open>np.maximum\<close> allocates the array that the name is bound to next.
\<close>

definition source_variance_heap :: "heap \<Rightarrow> nat \<Rightarrow> nat \<Rightarrow> heap \<times> nat" where
  "source_variance_heap h data g =
     (case alloc h (h ! data) of (h1, sv) \<Rightarrow>
        (let msk = map (\<lambda>x. x \<noteq> 0) (vals (h1 ! g));
             h2 = h1[sv := masked_idiv msk (h1 ! sv) (h1 ! g)];
             h3 = h2[sv := masked_fill (map Not msk) (h2 ! sv) 0]
         in alloc h3 (np_maximum (h3 ! sv) 0)))"

definition calc_total_error_heap ::
  "'u units \<Rightarrow> heap \<Rightarrow> nat \<times> 'u option \<Rightarrow> nat \<times> 'u option \<Rightarrow> gain_ref \<times> 'u option
     \<Rightarrow> heap \<times> (error + (nat \<times> 'u option))" where
  "calc_total_error_heap U h data_in bkg_in gain_in =
     (case (data_in, bkg_in, gain_in) of
        ((data, data_unit), (bkg_error, bkg_unit), (effective_gain, gain_unit)) \<Rightarrow>
     (case check_units U data_unit bkg_unit gain_unit of
        Inl e \<Rightarrow> (h, Inl e)
      | Inr use_units \<Rightarrow>
     (case gain_array_heap h data effective_gain of
        (h1, Inl e) \<Rightarrow> (h1, Inl e)
      | (h1, Inr g) \<Rightarrow>
     (case check_gain (h1 ! g) of
        Inl e \<Rightarrow> (h1, Inl e)
      | Inr checked \<Rightarrow>
     (case source_variance_heap h1 data g of (h2, sv) \<Rightarrow>
     (case np_add (np_square (h2 ! bkg_error)) (h2 ! sv) of
        Inl e \<Rightarrow> (h2, Inl e)
      | Inr tot \<Rightarrow>
          (case alloc h2 (np_sqrt tot) of
             (h3, r) \<Rightarrow> (h3, Inr (r, if use_units then data_unit else None)))))))))"

section \<open>Rendering: \<open>make_model_sources_image\<close>\<close>

text \<open>
  The model is astropy's. What the renderer uses of it: the names of its parameters,
  reading a parameter's value (\<open>getattr\<close>), assigning one (\<open>setattr\<close>, which the model
  may refuse), and evaluating the model on the pixel grid at its current parameter values,
  directly or through \<open>discretize_model\<close>. The behaviour is the record \<open>model_class\<close>;
  the state of a model object is the value of each parameter.
\<close>

record model_class =
  param_names :: "string list"
  accepts :: "string \<Rightarrow> real \<Rightarrow> bool"
  evaluate :: "(string \<Rightarrow> real) \<Rightarrow> nat \<times> nat \<Rightarrow> error + real ndarray"
  discretize_model :: "(string \<Rightarrow> real) \<Rightarrow> nat \<times> nat \<Rightarrow> real \<Rightarrow> error + real ndarray"

type_synonym model_state = "string \<Rightarrow> real"

definition setattr :: "model_class \<Rightarrow> model_state \<Rightarrow> string \<Rightarrow> real \<Rightarrow> error + model_state" where
  "setattr M st param v =
     (if accepts M param v then Inr (st(param := v)) else Inl (InputParameterError param))"

text \<open>\<open>source[param]\<close> for the row \<open>i\<close> of the table.\<close>

definition row_value :: "table \<Rightarrow> nat \<Rightarrow> string \<Rightarrow> error + real" where
  "row_value t i param =
     (case map_of t param of
        None \<Rightarrow> Inl (KeyError param)
      | Some col \<Rightarrow> if i < length col then Inr (col ! i) else Inl (IndexError param))"

text \<open>
  The inner loop: the parameters of one source are assigned one after the other. A failure
  leaves the model as it is at that moment, with the parameters before it assigned.
\<close>

fun set_params ::
  "model_class \<Rightarrow> table \<Rightarrow> nat \<Rightarrow> string list \<Rightarrow> model_state \<Rightarrow> model_state \<times> error option" where
  "set_params M t i [] st = (st, None)"
| "set_params M t i (param # params) st =
     (case row_value t i param of
        Inl e \<Rightarrow> (st, Some e)
      | Inr v \<Rightarrow>
          (case setattr M st param v of
             Inl e \<Rightarrow> (st, Some e)
           | Inr st' \<Rightarrow> set_params M t i params st'))"

text \<open>\<open>image += contribution\<close>: the sum must have the image's shape.\<close>

definition image_iadd :: "real ndarray \<Rightarrow> real ndarray \<Rightarrow> error + real ndarray" where
  "image_iadd img c =
     (case np_add img c of
        Inl e \<Rightarrow> Inl e
      | Inr r \<Rightarrow>
          if shape r \<noteq> shape img
          then Inl (ValueError ''non-broadcastable output operand'')
          else Inr r)"

text \<open>The body of the \<open>try\<close>: the loop over the rows of the table.\<close>

fun render_rows ::
  "model_class \<Rightarrow> nat \<times> nat \<Rightarrow> real \<Rightarrow> table \<Rightarrow> string list \<Rightarrow> nat list
     \<Rightarrow> model_state \<Rightarrow> real ndarray \<Rightarrow> model_state \<times> (error + real ndarray)" where
  "render_rows M shp oversample t params_to_set [] st img = (st, Inr img)"
| "render_rows M shp oversample t params_to_set (i # rows) st img =
     (case set_params M t i params_to_set st of
        (st', Some e) \<Rightarrow> (st', Inl e)
      | (st', None) \<Rightarrow>
          (case (if oversample = 1 then evaluate M st' shp
                 else discretize_model M st' shp oversample) of
             Inl e \<Rightarrow> (st', Inl e)
           | Inr c \<Rightarrow>
               (case image_iadd img c of
                  Inl e \<Rightarrow> (st', Inl e)
                | Inr img' \<Rightarrow> render_rows M shp oversample t params_to_set rows st' img')))"

text \<open>The \<open>finally\<close>: the saved values are assigned back, in the order they were saved.\<close>

fun restore_params ::
  "model_class \<Rightarrow> (string \<times> real) list \<Rightarrow> model_state \<Rightarrow> model_state \<times> error option" where
  "restore_params M [] st = (st, None)"
| "restore_params M ((param, v) # rest) st =
     (case setattr M st param v of
        Inl e \<Rightarrow> (st, Some e)
      | Inr st' \<Rightarrow> restore_params M rest st')"

text \<open>
  The result is the model's state after the call, with the image or the exception that
  leaves the function. An exception raised in the \<open>finally\<close> replaces the one of the
  \<open>try\<close>.
\<close>

definition make_model_sources_image ::
  "model_class \<Rightarrow> nat \<times> nat \<Rightarrow> model_state \<Rightarrow> table \<Rightarrow> real
     \<Rightarrow> model_state \<times> (error + real ndarray)" where
  "make_model_sources_image M shp model source_table oversample =
     (let img = np_zeros [fst shp, snd shp];
          params_to_set = filter (\<lambda>param. param \<in> set (param_names M)) (colnames source_table);
          init_params = map (\<lambda>param. (param, model param)) params_to_set
      in case render_rows M shp oversample source_table params_to_set
                [0..<table_len source_table] model img of
           (st, r) \<Rightarrow>
             (case restore_params M init_params st of
                (st', Some e) \<Rightarrow> (st', Inl e)
              | (st', None) \<Rightarrow> (st', r)))"

text \<open>
  The two wrappers build their own model, \<open>Gaussian2D(x_stddev=1, y_stddev=1)\<close> and
  \<open>IntegratedGaussianPRF(sigma=1)\<close>; its class and its initial state are parameters here.
  They prepare the table and hand it to the renderer, the PRF wrapper without oversampling.
\<close>

definition make_gaussian_sources_image ::
  "model_class \<Rightarrow> model_state \<Rightarrow> nat \<times> nat \<Rightarrow> table \<Rightarrow> real \<Rightarrow> error + real ndarray" where
  "make_gaussian_sources_image Gaussian2D model shp source_table oversample =
     (case gaussian_source_table source_table of
        Inl e \<Rightarrow> Inl e
      | Inr t \<Rightarrow> snd (make_model_sources_image Gaussian2D shp model t oversample))"

definition make_gaussian_prf_sources_image ::
  "model_class \<Rightarrow> model_state \<Rightarrow> nat \<times> nat \<Rightarrow> table \<Rightarrow> error + real ndarray" where
  "make_gaussian_prf_sources_image IntegratedGaussianPRF model shp source_table =
     (case prf_source_table source_table of
        Inl e \<Rightarrow> Inl e
      | Inr t \<Rightarrow> snd (make_model_sources_image IntegratedGaussianPRF shp model t 1))"

section \<open>Non-overlapping coordinates: \<open>_make_nonoverlap_coords\<close>\<close>

type_synonym point = "real \<times> real"

definition distance :: "point \<Rightarrow> point \<Rightarrow> real" where
  "distance p q = sqrt ((fst p - fst q) ^ 2 + (snd p - snd q) ^ 2)"

text \<open>
  \<open>KDTree(xycoords).query(xycoords, k=[2])\<close> gives, for a point of the tree, the distance
  to its second nearest neighbour in the tree, the nearest being the point itself. With
  fewer than two points in the tree the distance is infinite: \<open>None\<close>.
\<close>

definition second_nearest :: "point list \<Rightarrow> point \<Rightarrow> real option" where
  "second_nearest tree p =
     (let ds = sort (map (distance p) tree)
      in if 2 \<le> length ds then Some (ds ! 1) else None)"

text \<open>\<open>dist >= min_separation\<close>, which holds of an infinite distance.\<close>

fun separated :: "real \<Rightarrow> real option \<Rightarrow> bool" where
  "separated min_separation None = True"
| "separated min_separation (Some d) = (d \<ge> min_separation)"

text \<open>
  The loop, on the pool of coordinates, the round counter and the generator. The
  requested count is a natural number. The pool is the list of its rows; a pool of one
  point, whose mask has rank 0 after \<open>squeeze\<close>, keeps its one row.
\<close>

function nonoverlap_loop ::
  "real \<times> real \<Rightarrow> real \<times> real \<Rightarrow> nat \<Rightarrow> real \<Rightarrow> point list \<Rightarrow> nat \<Rightarrow> rng
     \<Rightarrow> point list \<times> nat \<times> rng" where
  "nonoverlap_loop xrange yrange ncoords min_separation xycoords niter g =
     (if length xycoords < ncoords then
        (if niter > 20 then (xycoords, niter, g)
         else
           (case uniform_draws (fst xrange) (snd xrange) ncoords g of (x_new, g1) \<Rightarrow>
           (case uniform_draws (fst yrange) (snd yrange) ncoords g1 of (y_new, g2) \<Rightarrow>
           (let new_xycoords = zip x_new y_new;
                pool = (if niter = 1 then new_xycoords else xycoords @ new_xycoords);
                dist = map (second_nearest pool) pool;
                kept = map fst (filter (\<lambda>(p, d). separated min_separation d) (zip pool dist))
            in nonoverlap_loop xrange yrange ncoords min_separation kept (niter + 1) g2))))
      else (xycoords, niter, g))"
  by pat_completeness auto
termination
  by (relation "measure (\<lambda>(xrange, yrange, ncoords, min_separation, xycoords, niter, g). 21 - niter)")
     auto

declare nonoverlap_loop.simps [simp del]

text \<open>
  The result: the coordinates, whether the warning "Unable to produce ... coordinates" was
  given, and the number of rounds the loop went through (which the code does not return;
  it is \<open>niter - 1\<close> at the end of the loop).
\<close>

definition make_nonoverlap_coords ::
  "real \<times> real \<Rightarrow> real \<times> real \<Rightarrow> nat \<Rightarrow> real \<Rightarrow> rng \<Rightarrow> point list \<times> bool \<times> nat" where
  "make_nonoverlap_coords xrange yrange ncoords min_separation g =
     (case nonoverlap_loop xrange yrange ncoords min_separation [] 1 g of
        (xycoords, niter, g') \<Rightarrow>
          (let xycoords = take ncoords xycoords
           in (xycoords, length xycoords < ncoords, niter - 1)))"

text \<open>Coordinates at different positions of a list are at least \<open>d\<close> apart.\<close>

definition all_separated :: "real \<Rightarrow> point list \<Rightarrow> bool" where
  "all_separated d xy \<longleftrightarrow> (\<forall>i < length xy. \<forall>j < length xy. i \<noteq> j \<longrightarrow> d \<le> distance (xy ! i) (xy ! j))"

section \<open>Theorems\<close>

subsection \<open>Broadcasting between arrays of one shape, and of a number\<close>

lemma concat_chunks:
  "length v = t * p \<Longrightarrow> concat (map (\<lambda>i. take p (drop (i * p) v)) [0..<t]) = v"
proof (induction t arbitrary: v)
  case 0 then show ?case by simp
next
  case (Suc t)
  have "concat (map (\<lambda>i. take p (drop (i * p) v)) [0..<t]) = take (t * p) v"
  proof -
    have "concat (map (\<lambda>i. take p (drop (i * p) (take (t * p) v))) [0..<t]) = take (t * p) v"
      using Suc.prems by (intro Suc.IH) simp
    moreover have "\<And>i. i < t \<Longrightarrow> take p (drop (i * p) (take (t * p) v)) = take p (drop (i * p) v)"
    proof -
      fix i assume "i < t"
      then have "Suc i \<le> t" by simp
      then have "Suc i * p \<le> t * p" by (rule mult_le_mono1)
      then have "p \<le> t * p - i * p" by simp
      then show "take p (drop (i * p) (take (t * p) v)) = take p (drop (i * p) v)"
        by (simp add: drop_take min_def)
    qed
    then have "map (\<lambda>i. take p (drop (i * p) (take (t * p) v))) [0..<t]
        = map (\<lambda>i. take p (drop (i * p) v)) [0..<t]"
      by simp
    ultimately show ?thesis by simp
  qed
  moreover have "take p (drop (t * p) v) = drop (t * p) v"
    using Suc.prems by simp
  ultimately show ?case by simp
qed

lemma stretch_same: "length v = prod_list s \<Longrightarrow> stretch s s v = v"
proof (induction s arbitrary: v)
  case Nil then show ?case by simp
next
  case (Cons t ts)
  have len: "length v = t * prod_list ts" using Cons.prems by simp
  have "\<And>i. i < t \<Longrightarrow> length (take (prod_list ts) (drop (i * prod_list ts) v)) = prod_list ts"
  proof -
    fix i assume "i < t"
    then have "Suc i \<le> t" by simp
    then have "Suc i * prod_list ts \<le> t * prod_list ts" by (rule mult_le_mono1)
    then show "length (take (prod_list ts) (drop (i * prod_list ts) v)) = prod_list ts"
      using len by simp
  qed
  then have inner: "\<And>i. i < t \<Longrightarrow>
      stretch ts ts (take (prod_list ts) (drop (i * prod_list ts) v))
        = take (prod_list ts) (drop (i * prod_list ts) v)"
    by (rule Cons.IH)
  show ?case
  proof (cases "t = 1")
    case True
    with len show ?thesis using inner[of 0] by simp
  next
    case False
    have "map (\<lambda>i. stretch ts ts (take (prod_list ts) (drop (i * prod_list ts) v))) [0..<t]
        = map (\<lambda>i. take (prod_list ts) (drop (i * prod_list ts) v)) [0..<t]"
      using inner by simp
    moreover from False have "stretch (t # ts) (t # ts) v
        = concat (map (\<lambda>i. stretch ts ts (take (prod_list ts) (drop (i * prod_list ts) v))) [0..<t])"
      by simp
    ultimately have "stretch (t # ts) (t # ts) v
        = concat (map (\<lambda>i. take (prod_list ts) (drop (i * prod_list ts) v)) [0..<t])"
      by (simp only:)
    with len show ?thesis by (simp only: concat_chunks)
  qed
qed

lemma broadcast_shapes_rev_same: "broadcast_shapes_rev s s = Some s"
  by (induction s) auto

lemma broadcast_shapes_same: "broadcast_shapes s s = Some s"
  by (simp add: broadcast_shapes_def broadcast_shapes_rev_same)

lemma broadcast_to_same: "wf_array a \<Longrightarrow> broadcast_to a (shape a) = vals a"
  by (simp add: broadcast_to_def pad_shape_def wf_array_def stretch_same)

lemma np_add_same_shape:
  "wf_array a \<Longrightarrow> wf_array b \<Longrightarrow> shape a = shape b \<Longrightarrow>
   np_add a b = Inr \<lparr>shape = shape a, vals = map (\<lambda>(x, y). x + y) (zip (vals a) (vals b))\<rparr>"
  using broadcast_to_same[of a] broadcast_to_same[of b]
  by (simp add: np_add_def broadcast_shapes_same)

lemma broadcast_shapes_rev_Nil2: "broadcast_shapes_rev s [] = Some s"
  by (cases s) auto

lemma broadcast_shapes_scalar: "broadcast_shapes s [] = Some s"
  by (simp add: broadcast_shapes_def broadcast_shapes_rev_Nil2)

lemma stretch_scalar: "stretch (replicate (length t) 1) t [c] = replicate (prod_list t) c"
proof (induction t)
  case Nil then show ?case by simp
next
  case (Cons n t)
  have "stretch (replicate (length (n # t)) 1) (n # t) [c]
      = concat (map (\<lambda>i. replicate (prod_list t) c) [0..<n])"
    using Cons.IH by simp
  also have "\<dots> = replicate (n * prod_list t) c"
  proof (induction n)
    case 0 then show ?case by simp
  next
    case (Suc n)
    have "replicate (n * prod_list t) c @ replicate (prod_list t) c
        = replicate (Suc n * prod_list t) c"
      by (simp add: replicate_add [symmetric] add.commute)
    with Suc show ?case by simp
  qed
  finally show ?case by simp
qed

lemma np_add_zeros_scalar:
  "np_add (np_zeros s) \<lparr>shape = [], vals = [c]\<rparr> = Inr \<lparr>shape = s, vals = replicate (prod_list s) c\<rparr>"
proof -
  have "broadcast_to (np_zeros s) s = replicate (prod_list s) 0"
    using broadcast_to_same[of "np_zeros s"] by (simp add: np_zeros_def wf_array_def)
  moreover have "broadcast_to \<lparr>shape = [], vals = [c]\<rparr> s = replicate (prod_list s) c"
    using stretch_scalar[of s c] by (simp add: broadcast_to_def pad_shape_def)
  ultimately show ?thesis
    by (simp add: np_add_def np_zeros_def broadcast_shapes_scalar zip_replicate map_replicate_const)
qed

subsection \<open>The total error\<close>

lemma check_units_ok: "units_ok U du bu gu \<Longrightarrow> check_units U du bu gu = Inr (du \<noteq> None)"
  by (auto simp: units_ok_def check_units_def)

lemma gain_array_valid:
  assumes "wf_array data" and "valid_gain data gain"
  shows "gain_array data gain = Inr \<lparr>shape = shape data, vals = gain_values data gain\<rparr>"
proof (cases gain)
  case (Scalar c)
  with assms show ?thesis
    by (simp add: gain_array_def np_add_zeros_scalar wf_array_def)
next
  case (Array a)
  with assms have a: "wf_array a" "shape a = shape data" by simp_all
  show ?thesis
  proof (cases "shape a = []")
    case False
    with Array a show ?thesis by (simp add: gain_array_def)
  next
    case True
    with a have "length (vals a) = 1" by (simp add: wf_array_def)
    then obtain v where v: "vals a = [v]" by (cases "vals a") auto
    have z: "wf_array (np_zeros (shape data))" by (simp add: wf_array_def np_zeros_def)
    have sz: "shape (np_zeros (shape data)) = shape a" using a by (simp add: np_zeros_def)
    have "np_add (np_zeros (shape data)) a
        = Inr \<lparr>shape = shape (np_zeros (shape data)),
               vals = map (\<lambda>(x, y). x + y) (zip (vals (np_zeros (shape data))) (vals a))\<rparr>"
      using z a(1) sz by (rule np_add_same_shape)
    with True a v Array show ?thesis by (simp add: gain_array_def np_zeros_def)
  qed
qed

lemma gain_values_length:
  "wf_array data \<Longrightarrow> valid_gain data gain \<Longrightarrow> length (gain_values data gain) = length (vals data)"
  by (cases gain) (auto simp: wf_array_def)

lemma gain_values_nth:
  "i < length (vals data) \<Longrightarrow> gain_values data gain ! i = gain_at gain i"
  by (cases gain) auto

lemma gain_values_nonneg:
  "valid_gain data gain \<Longrightarrow> \<forall>x \<in> set (gain_values data gain). 0 \<le> x"
  by (cases gain) auto

lemma source_variance_vals:
  assumes "length (vals g) = length (vals data)"
  shows "length (vals (source_variance data g)) = length (vals data)"
    and "shape (source_variance data g) = shape data"
    and "i < length (vals data) \<Longrightarrow>
         vals (source_variance data g) ! i
           = max (if vals g ! i \<noteq> 0 then vals data ! i / vals g ! i else 0) 0"
  using assms
  by (simp_all add: source_variance_def masked_idiv_def masked_fill_def np_maximum_def Let_def)

lemma source_variance_spec:
  assumes "0 \<le> g"
  shows "max (if g \<noteq> 0 then I / g else 0) 0 = shot_noise_spec I g"
  by (simp add: shot_noise_spec_def max_def)

lemma calc_total_error_value:
  assumes "wf_array data" and "wf_array bkg_error" and "shape bkg_error = shape data"
    and "valid_gain data gain" and "units_ok U du bu gu"
  shows "\<exists>out. calc_total_error U (data, du) (bkg_error, bu) (gain, gu) = Inr (out, du)
           \<and> shape out = shape data \<and> length (vals out) = length (vals data)
           \<and> (\<forall>i < length (vals data).
                 vals out ! i = sqrt ((vals bkg_error ! i) ^ 2
                                      + shot_noise_spec (vals data ! i) (gain_at gain i)))"
proof -
  let ?g = "\<lparr>shape = shape data, vals = gain_values data gain\<rparr>"
  let ?sv = "source_variance data ?g"
  have glen: "length (vals ?g) = length (vals data)"
    using assms by (simp add: gain_values_length)
  have blen: "length (vals bkg_error) = length (vals data)"
    using assms by (simp add: wf_array_def)
  have cg: "check_gain ?g = Inr ?g"
    using gain_values_nonneg[OF assms(4)] by (auto simp: check_gain_def not_less)
  have wsv: "wf_array ?sv"
    using source_variance_vals(1,2)[OF glen] assms(1) by (simp add: wf_array_def)
  have wsq: "wf_array (np_square bkg_error)" "shape (np_square bkg_error) = shape ?sv"
    using assms(2,3) source_variance_vals(2)[OF glen] by (simp_all add: wf_array_def np_square_def)
  let ?tot = "\<lparr>shape = shape (np_square bkg_error),
               vals = map (\<lambda>(x, y). x + y) (zip (vals (np_square bkg_error)) (vals ?sv))\<rparr>"
  have add: "np_add (np_square bkg_error) ?sv = Inr ?tot"
    using wsq(1) wsv wsq(2) by (rule np_add_same_shape)
  have du: "(if du \<noteq> None then du else None) = du" by simp
  have res: "calc_total_error U (data, du) (bkg_error, bu) (gain, gu) = Inr (np_sqrt ?tot, du)"
    using check_units_ok[OF assms(5)] gain_array_valid[OF assms(1,4)] cg add du
    by (simp add: calc_total_error_def)
  have shp: "shape (np_sqrt ?tot) = shape data"
    using assms(3) by (simp add: np_sqrt_def np_square_def)
  have len: "length (vals (np_sqrt ?tot)) = length (vals data)"
    using blen source_variance_vals(1)[OF glen] by (simp add: np_sqrt_def np_square_def)
  have pt: "vals (np_sqrt ?tot) ! i = sqrt ((vals bkg_error ! i) ^ 2
              + shot_noise_spec (vals data ! i) (gain_at gain i))" if i: "i < length (vals data)" for i
  proof -
    have gi: "gain_values data gain ! i = gain_at gain i"
      using i by (rule gain_values_nth)
    have "0 \<le> gain_values data gain ! i"
      using gain_values_nonneg[OF assms(4)] glen i by (simp add: all_set_conv_all_nth)
    then have "0 \<le> gain_at gain i" by (simp only: gi)
    then have "max (if gain_at gain i \<noteq> 0 then vals data ! i / gain_at gain i else 0) 0
        = shot_noise_spec (vals data ! i) (gain_at gain i)"
      by (rule source_variance_spec)
    moreover have "vals ?sv ! i
        = max (if gain_at gain i \<noteq> 0 then vals data ! i / gain_at gain i else 0) 0"
      using source_variance_vals(3)[OF glen i] gi by simp
    ultimately have "vals ?sv ! i = shot_noise_spec (vals data ! i) (gain_at gain i)"
      by (simp only:)
    then show ?thesis
      using i blen source_variance_vals(1)[OF glen] by (simp add: np_sqrt_def np_square_def)
  qed
  from res shp len pt show ?thesis by blast
qed




text \<open>
  C1. For a signal array, a background error array of the same shape and a non-negative
  gain (a number, or an array of the same shape), with no units or with consistent ones,
  \<open>calc_total_error\<close> returns an array of the signal's shape, with the signal's unit, whose
  element at every pixel is \<open>sqrt (bkg\<^sup>2 + s)\<close>, where \<open>s\<close> is \<open>I/g\<close>, or 0 where \<open>g = 0\<close>,
  or 0 where \<open>I/g\<close> is negative.
\<close>

theorem calc_total_error_formula:
  assumes "wf_array data" and "wf_array bkg_error" and "shape bkg_error = shape data"
    and "valid_gain data gain" and "units_ok U du bu gu"
  shows "\<exists>out. calc_total_error U (data, du) (bkg_error, bu) (gain, gu) = Inr (out, du)
           \<and> shape out = shape data \<and> length (vals out) = length (vals data)
           \<and> (\<forall>i < length (vals data).
                 vals out ! i = sqrt ((vals bkg_error ! i) ^ 2
                                      + shot_noise_spec (vals data ! i) (gain_at gain i)))"
  using assms by (rule calc_total_error_value)

theorem calc_total_error_formula_witness:
  "wf_array \<lparr>shape = [3], vals = [4, - 1, 6 :: real]\<rparr>
   \<and> wf_array \<lparr>shape = [3], vals = [3, 2, 1 :: real]\<rparr>
   \<and> valid_gain \<lparr>shape = [3], vals = [4, - 1, 6]\<rparr> (Array \<lparr>shape = [3], vals = [1, 2, 0]\<rparr>)
   \<and> units_ok \<lparr>umul = (@), electron = ''electron'', photon = ''photon''\<rparr> None None None
   \<and> (\<exists>out. calc_total_error \<lparr>umul = (@), electron = ''electron'', photon = ''photon''\<rparr>
               (\<lparr>shape = [3], vals = [4, - 1, 6]\<rparr>, None) (\<lparr>shape = [3], vals = [3, 2, 1]\<rparr>, None)
               (Array \<lparr>shape = [3], vals = [1, 2, 0]\<rparr>, None) = Inr (out, None)
            \<and> vals out ! 0 = sqrt (3 ^ 2 + shot_noise_spec 4 1)
            \<and> vals out ! 1 = sqrt (2 ^ 2 + shot_noise_spec (- 1) 2)
            \<and> vals out ! 2 = sqrt (1 ^ 2 + shot_noise_spec 6 0))"
proof -
  have h: "wf_array \<lparr>shape = [3], vals = [4, - 1, 6 :: real]\<rparr>"
    "wf_array \<lparr>shape = [3], vals = [3, 2, 1 :: real]\<rparr>"
    "shape \<lparr>shape = [3], vals = [3, 2, 1 :: real]\<rparr> = shape \<lparr>shape = [3], vals = [4, - 1, 6 :: real]\<rparr>"
    "valid_gain \<lparr>shape = [3], vals = [4, - 1, 6]\<rparr> (Array \<lparr>shape = [3], vals = [1, 2, 0]\<rparr>)"
    "units_ok \<lparr>umul = (@), electron = ''electron'', photon = ''photon''\<rparr> None None None"
    by (simp_all add: wf_array_def units_ok_def)
  from calc_total_error_formula[OF h] obtain out where
    o: "calc_total_error \<lparr>umul = (@), electron = ''electron'', photon = ''photon''\<rparr>
               (\<lparr>shape = [3], vals = [4, - 1, 6]\<rparr>, None) (\<lparr>shape = [3], vals = [3, 2, 1]\<rparr>, None)
               (Array \<lparr>shape = [3], vals = [1, 2, 0]\<rparr>, None) = Inr (out, None)"
    and p: "\<forall>i < length (vals \<lparr>shape = [3], vals = [4, - 1, 6 :: real]\<rparr>).
                 vals out ! i = sqrt ((vals \<lparr>shape = [3], vals = [3, 2, 1 :: real]\<rparr> ! i) ^ 2
                    + shot_noise_spec (vals \<lparr>shape = [3], vals = [4, - 1, 6 :: real]\<rparr> ! i)
                        (gain_at (Array \<lparr>shape = [3], vals = [1, 2, 0]\<rparr>) i))"
    by blast
  from p have "vals out ! 0 = sqrt (3 ^ 2 + shot_noise_spec 4 1)"
    "vals out ! 1 = sqrt (2 ^ 2 + shot_noise_spec (- 1) 2)"
    "vals out ! 2 = sqrt (1 ^ 2 + shot_noise_spec 6 0)"
    by (simp_all add: nth_Cons')
  with h o show ?thesis by blast
qed






text \<open>
  C6. \<open>calc_total_error\<close> raises the "they all must have units" error whenever some but
  not all of the three inputs carry a unit. When all three carry one, it raises "must have
  the same units" if the units of the data and of the background error differ, and it raises
  an error if the product of the data's unit and the gain's unit is neither the electron nor
  the photon.
\<close>

theorem calc_total_error_unit_errors:
  "((du \<noteq> None \<or> bu \<noteq> None \<or> gu \<noteq> None) \<and> (du = None \<or> bu = None \<or> gu = None) \<longrightarrow>
      calc_total_error U (data, du) (bkg_error, bu) (gain, gu)
        = Inl (ValueError ''If any of data, bkg_error, or effective_gain has units, then they all must all have units.''))
   \<and> (u \<noteq> v \<longrightarrow>
      calc_total_error U (data, Some u) (bkg_error, Some v) (gain, Some w)
        = Inl (ValueError ''data and bkg_error must have the same units.''))
   \<and> (umul U u w \<noteq> electron U \<and> umul U u w \<noteq> photon U \<longrightarrow>
      (\<exists>e. calc_total_error U (data, Some u) (bkg_error, Some v) (gain, Some w) = Inl e))"
  by (auto simp: calc_total_error_def check_units_def)

theorem calc_total_error_unit_errors_witness:
  "(Some ''adu'' \<noteq> None \<and> (None :: string option) = None)
   \<and> calc_total_error \<lparr>umul = (@), electron = ''electron'', photon = ''photon''\<rparr>
        (\<lparr>shape = [2], vals = [4, 1]\<rparr>, Some ''adu'') (\<lparr>shape = [2], vals = [3, 2]\<rparr>, Some ''adu'')
        (Scalar 2, None)
      = Inl (ValueError ''If any of data, bkg_error, or effective_gain has units, then they all must all have units.'')
   \<and> ''adu'' \<noteq> ''s''
   \<and> calc_total_error \<lparr>umul = (@), electron = ''electron'', photon = ''photon''\<rparr>
        (\<lparr>shape = [2], vals = [4, 1]\<rparr>, Some ''adu'') (\<lparr>shape = [2], vals = [3, 2]\<rparr>, Some ''s'')
        (Scalar 2, Some ''s'')
      = Inl (ValueError ''data and bkg_error must have the same units.'')
   \<and> ''adu'' @ ''s'' \<noteq> ''electron'' \<and> ''adu'' @ ''s'' \<noteq> ''photon''
   \<and> (\<exists>e. calc_total_error \<lparr>umul = (@), electron = ''electron'', photon = ''photon''\<rparr>
        (\<lparr>shape = [2], vals = [4, 1]\<rparr>, Some ''adu'') (\<lparr>shape = [2], vals = [3, 2]\<rparr>, Some ''s'')
        (Scalar 2, Some ''s'') = Inl e)"
  using calc_total_error_unit_errors
    [where du = "Some ''adu''" and bu = "Some ''adu''" and gu = None
       and U = "\<lparr>umul = (@), electron = ''electron'', photon = ''photon''\<rparr>"
       and data = "\<lparr>shape = [2], vals = [4, 1]\<rparr>" and bkg_error = "\<lparr>shape = [2], vals = [3, 2]\<rparr>"
       and gain = "Scalar 2" and u = "''adu''" and v = "''s''" and w = "''s''"]
  by simp

subsection \<open>The total error leaves its inputs alone\<close>

lemma gain_array_heap_extends:
  "gain_array_heap h data g = (h1, r) \<Longrightarrow>
   (\<exists>ext. h1 = h @ ext) \<and> (\<forall>p. r = Inr p \<longrightarrow> p < length h1)
   \<or> (h1 = h \<and> (\<exists>p. r = Inr p \<and> g = ArrayRef p))"
  by (cases g) (auto simp: alloc_def split: sum.splits if_splits)

lemma source_variance_heap_extends:
  "source_variance_heap h data g = (h2, sv) \<Longrightarrow>
   (\<exists>ext. h2 = h @ ext) \<and> length h \<le> sv \<and> sv < length h2"
  by (auto simp: source_variance_heap_def alloc_def Let_def)

text \<open>
  C10. After \<open>calc_total_error\<close>, whether it returns or raises, the heap is the heap before
  the call followed by new arrays: every array that existed, so the data, the background
  error and the gain, holds the values it held. The array that is returned is one of the
  new ones.
\<close>

theorem calc_total_error_heap_frame:
  "(\<exists>ext. fst (calc_total_error_heap U h (data, du) (bkg_error, bu) (gain, gu)) = h @ ext)
   \<and> (\<forall>p ru. snd (calc_total_error_heap U h (data, du) (bkg_error, bu) (gain, gu)) = Inr (p, ru)
         \<longrightarrow> length h \<le> p
           \<and> p < length (fst (calc_total_error_heap U h (data, du) (bkg_error, bu) (gain, gu))))"
proof (cases "check_units U du bu gu")
  case (Inl e)
  then show ?thesis by (simp add: calc_total_error_heap_def)
next
  case use: (Inr use_units)
  obtain h1 rg where g: "gain_array_heap h data gain = (h1, rg)"
    by (cases "gain_array_heap h data gain") auto
  from gain_array_heap_extends[OF g] obtain ext1 where h1: "h1 = h @ ext1" by auto
  show ?thesis
  proof (cases rg)
    case (Inl e)
    with use g h1 show ?thesis by (simp add: calc_total_error_heap_def)
  next
    case ga: (Inr ga)
    show ?thesis
    proof (cases "check_gain (h1 ! ga)")
      case (Inl e)
      with use g ga h1 show ?thesis by (simp add: calc_total_error_heap_def)
    next
      case cg: (Inr checked)
      obtain h2 sv where s: "source_variance_heap h1 data ga = (h2, sv)"
        by (cases "source_variance_heap h1 data ga") auto
      from source_variance_heap_extends[OF s] obtain ext2 where h2: "h2 = h1 @ ext2" by auto
      show ?thesis
      proof (cases "np_add (np_square (h2 ! bkg_error)) (h2 ! sv)")
        case (Inl e)
        with use g ga cg s h1 h2 show ?thesis by (simp add: calc_total_error_heap_def)
      next
        case (Inr tot)
        with use g ga cg s h1 h2 show ?thesis
          by (simp add: calc_total_error_heap_def alloc_def)
      qed
    qed
  qed
qed

theorem calc_total_error_heap_frame_witness:
  "snd (calc_total_error_heap \<lparr>umul = (@), electron = ''electron'', photon = ''photon''\<rparr>
      [\<lparr>shape = [2], vals = [4, - 1]\<rparr>, \<lparr>shape = [2], vals = [3, 2]\<rparr>] (0, None) (1, None)
      (ScalarVal 2, None)) = Inr (5, None)
   \<and> length [\<lparr>shape = [2], vals = [4, - 1 :: real]\<rparr>, \<lparr>shape = [2], vals = [3, 2]\<rparr>] \<le> 5
   \<and> 5 < length (fst (calc_total_error_heap \<lparr>umul = (@), electron = ''electron'', photon = ''photon''\<rparr>
      [\<lparr>shape = [2], vals = [4, - 1]\<rparr>, \<lparr>shape = [2], vals = [3, 2]\<rparr>] (0, None) (1, None)
      (ScalarVal 2, None)))
   \<and> (\<exists>ext. fst (calc_total_error_heap \<lparr>umul = (@), electron = ''electron'', photon = ''photon''\<rparr>
      [\<lparr>shape = [2], vals = [4, - 1]\<rparr>, \<lparr>shape = [2], vals = [3, 2]\<rparr>] (0, None) (1, None)
      (ScalarVal 2, None)) = [\<lparr>shape = [2], vals = [4, - 1]\<rparr>, \<lparr>shape = [2], vals = [3, 2]\<rparr>] @ ext)"
proof -
  have v: "snd (calc_total_error_heap \<lparr>umul = (@), electron = ''electron'', photon = ''photon''\<rparr>
      [\<lparr>shape = [2], vals = [4, - 1]\<rparr>, \<lparr>shape = [2], vals = [3, 2]\<rparr>] (0, None) (1, None)
      (ScalarVal 2, None)) = Inr (5, None)"
    by (simp add: calc_total_error_heap_def check_units_def
         np_add_def broadcast_shapes_def broadcast_to_def pad_shape_def np_zeros_def
         alloc_def check_gain_def source_variance_heap_def masked_idiv_def masked_fill_def
         np_maximum_def np_square_def np_sqrt_def Let_def upt_rec)
  from calc_total_error_heap_frame
         [of "\<lparr>umul = (@), electron = ''electron'', photon = ''photon''\<rparr>"
             "[\<lparr>shape = [2], vals = [4, - 1]\<rparr>, \<lparr>shape = [2], vals = [3, 2]\<rparr>]" 0 None 1 None
             "ScalarVal 2" None] v
  show ?thesis by blast
qed

text \<open>The heap version computes what the pure one does.\<close>

lemma source_variance_heap_value:
  assumes "data < length h" and "g < length h"
  shows "source_variance_heap h data g
     = (h @ [masked_fill (map Not (map (\<lambda>x. x \<noteq> 0) (vals (h ! g))))
               (masked_idiv (map (\<lambda>x. x \<noteq> 0) (vals (h ! g))) (h ! data) (h ! g)) 0,
             source_variance (h ! data) (h ! g)],
        Suc (length h))"
  using assms
  by (simp add: source_variance_heap_def source_variance_def alloc_def Let_def nth_append)

lemma calc_total_error_heap_value:
  assumes "data < length h" and "bkg_error < length h"
    and "\<forall>p. gain = ArrayRef p \<longrightarrow> p < length h"
  shows "map_sum id (\<lambda>(p, u). (fst (calc_total_error_heap U h (data, du) (bkg_error, bu) (gain, gu)) ! p, u))
           (snd (calc_total_error_heap U h (data, du) (bkg_error, bu) (gain, gu)))
         = calc_total_error U (h ! data, du) (h ! bkg_error, bu) (deref_gain h gain, gu)"
proof (cases "check_units U du bu gu")
  case (Inl e)
  then show ?thesis by (simp add: calc_total_error_heap_def calc_total_error_def)
next
  case use: (Inr use_units)
  show ?thesis
  proof (cases "gain_array (h ! data) (deref_gain h gain)")
    case (Inl e)
    then have "\<exists>h1. gain_array_heap h data gain = (h1, Inl e)"
      by (cases gain)
         (auto simp: gain_array_def alloc_def Let_def split: sum.splits if_splits)
    with use Inl show ?thesis by (auto simp: calc_total_error_heap_def calc_total_error_def)
  next
    case ga: (Inr garr)
    then obtain h1 p where g: "gain_array_heap h data gain = (h1, Inr p)"
      and h1: "\<exists>ext. h1 = h @ ext" and p: "p < length h1" and v: "h1 ! p = garr"
      using assms(3)
      by (cases gain)
         (auto simp: gain_array_def alloc_def Let_def split: sum.splits if_splits)
    from h1 assms have d1: "data < length h1" "bkg_error < length h1"
      and e1: "h1 ! data = h ! data" "h1 ! bkg_error = h ! bkg_error"
      by (auto simp: nth_append)
    show ?thesis
    proof (cases "check_gain garr")
      case (Inl e)
      with use ga g v show ?thesis by (simp add: calc_total_error_heap_def calc_total_error_def)
    next
      case cg: (Inr checked)
      then have ck: "checked = garr" by (auto simp: check_gain_def split: if_splits)
      note sv = source_variance_heap_value[OF d1(1) p]
      show ?thesis
      proof (cases "np_add (np_square (h ! bkg_error)) (source_variance (h ! data) garr)")
        case (Inl e)
        with use ga g v cg ck sv d1 e1 show ?thesis
          by (simp add: calc_total_error_heap_def calc_total_error_def nth_append)
      next
        case (Inr tot)
        with use ga g v cg ck sv d1 e1 show ?thesis
          by (simp add: calc_total_error_heap_def calc_total_error_def nth_append alloc_def)
      qed
    qed
  qed
qed

subsection \<open>Poisson noise\<close>






subsection \<open>Random tables\<close>










subsection \<open>The renderer restores the model\<close>










subsection \<open>Non-overlapping coordinates\<close>

lemma distance_self: "distance p p = 0"
  by (simp add: distance_def)

lemma distance_nonneg: "0 \<le> distance p q"
  by (simp add: distance_def)

lemma distance_commute: "distance p q = distance q p"
  by (simp add: distance_def power2_commute)

lemma two_in_filter:
  assumes "i < j" and "j < length xs" and "P (xs ! i)" and "P (xs ! j)"
  shows "2 \<le> length (filter P xs)"
proof -
  have xs: "xs = take j xs @ xs ! j # drop (Suc j) xs"
    using assms(2) by (rule id_take_nth_drop)
  have "xs ! i \<in> set (take j xs)"
    using assms(1,2) by (auto simp: in_set_conv_nth intro!: exI[of _ i])
  then have "filter P (take j xs) \<noteq> []"
    using assms(3) by (auto simp: filter_empty_conv)
  then have "1 \<le> length (filter P (take j xs))"
    by (cases "filter P (take j xs)") auto
  moreover have "length (filter P xs)
      = length (filter P (take j xs)) + length (filter P (xs ! j # drop (Suc j) xs))"
    by (subst xs) simp
  ultimately show ?thesis using assms(4) by simp
qed

lemma sorted_second_bound:
  assumes "sorted ds" and "2 \<le> length ds" and "d \<le> ds ! 1"
  shows "length (filter (\<lambda>x. x < d) ds) \<le> 1"
proof -
  obtain a rest where ds: "ds = a # rest" using assms(2) by (cases ds) auto
  have "\<forall>x \<in> set rest. d \<le> x"
  proof
    fix x assume "x \<in> set rest"
    moreover have "rest \<noteq> []" using assms(2) ds by auto
    ultimately have "rest ! 0 \<le> x"
      using assms(1) ds by (cases rest) auto
    moreover have "ds ! 1 = rest ! 0" using ds by simp
    ultimately show "d \<le> x" using assms(3) by simp
  qed
  then have "filter (\<lambda>x. x < d) rest = []"
    by (auto simp: filter_empty_conv not_less)
  with ds show ?thesis by simp
qed

lemma second_nearest_separated:
  assumes "i < length pool" and "j < length pool" and "i \<noteq> j"
    and "separated d (second_nearest pool (pool ! i))"
  shows "d \<le> distance (pool ! i) (pool ! j)"
proof (rule ccontr)
  assume "\<not> d \<le> distance (pool ! i) (pool ! j)"
  then have lt: "distance (pool ! i) (pool ! j) < d" by simp
  let ?xs = "map (distance (pool ! i)) pool"
  let ?P = "\<lambda>x. x < d"
  have pos: "0 < d" using lt distance_nonneg[of "pool ! i" "pool ! j"] by simp
  have Pi: "?P (?xs ! i)" using assms(1) pos by (simp add: distance_self)
  have Pj: "?P (?xs ! j)" using assms(2) lt by simp
  have two: "2 \<le> length (filter ?P ?xs)"
  proof (cases "i < j")
    case True
    then show ?thesis using assms(2) Pi Pj by (intro two_in_filter[of i j]) simp_all
  next
    case False
    with assms(3) have "j < i" by simp
    then show ?thesis using assms(1) Pi Pj by (intro two_in_filter[of j i]) simp_all
  qed
  have "2 \<le> length ?xs"
    using two length_filter_le[of ?P ?xs] by (rule order_trans)
  then have len: "2 \<le> length (sort ?xs)" by simp
  then have "d \<le> sort ?xs ! 1"
    using assms(4) by (simp add: second_nearest_def)
  with len have "length (filter ?P (sort ?xs)) \<le> 1"
    by (intro sorted_second_bound) simp_all
  moreover have "length (filter ?P (sort ?xs)) = length (filter ?P ?xs)"
    by (simp add: filter_sort)
  ultimately show False using two by simp
qed

lemma all_separated_sorted_wrt:
  "all_separated d xy \<longleftrightarrow> sorted_wrt (\<lambda>p q. d \<le> distance p q) xy"
proof
  assume "all_separated d xy"
  then show "sorted_wrt (\<lambda>p q. d \<le> distance p q) xy"
    by (simp add: all_separated_def sorted_wrt_iff_nth_less)
next
  assume s: "sorted_wrt (\<lambda>p q. d \<le> distance p q) xy"
  show "all_separated d xy"
    unfolding all_separated_def
  proof (intro allI impI)
    fix i j assume ij: "i < length xy" "j < length xy" "i \<noteq> j"
    show "d \<le> distance (xy ! i) (xy ! j)"
    proof (cases "i < j")
      case True
      with s ij show ?thesis by (simp add: sorted_wrt_iff_nth_less)
    next
      case False
      with ij have "j < i" by simp
      with s ij have "d \<le> distance (xy ! j) (xy ! i)" by (simp add: sorted_wrt_iff_nth_less)
      then show ?thesis by (simp add: distance_commute)
    qed
  qed
qed

lemma kept_filter:
  "map fst (filter (\<lambda>(p, r). separated d r) (zip pool (map (second_nearest pool) pool)))
     = filter (\<lambda>p. separated d (second_nearest pool p)) pool"
proof -
  have "zip pool (map (second_nearest pool) pool) = map (\<lambda>p. (p, second_nearest pool p)) pool"
    by (simp add: zip_map2 zip_same_conv_map)
  then show ?thesis
    by (simp add: filter_map comp_def)
qed

lemma kept_separated:
  "all_separated d (filter (\<lambda>p. separated d (second_nearest pool p)) pool)"
proof -
  let ?Q = "\<lambda>p. separated d (second_nearest pool p)"
  let ?R = "\<lambda>p q. ?Q p \<longrightarrow> d \<le> distance p q"
  have "sorted_wrt ?R pool"
    unfolding sorted_wrt_iff_nth_less
  proof (intro allI impI)
    fix i j assume "i < j" "j < length pool" "?Q (pool ! i)"
    then show "d \<le> distance (pool ! i) (pool ! j)"
      by (intro second_nearest_separated) simp_all
  qed
  then have "sorted_wrt ?R (filter ?Q pool)" by (rule sorted_wrt_filter)
  then have "sorted_wrt (\<lambda>p q. d \<le> distance p q) (filter ?Q pool)"
    by (rule sorted_wrt_mono_rel[rotated]) simp
  then show ?thesis by (simp add: all_separated_sorted_wrt)
qed

lemma nonoverlap_loop_separated:
  "all_separated d xy \<Longrightarrow> all_separated d (fst (nonoverlap_loop xr yr m d xy niter g))"
proof (induction xr yr m d xy niter g rule: nonoverlap_loop.induct)
  case (1 xr yr m d xy niter g)
  show ?case
  proof (cases "length xy < m \<and> \<not> niter > 20")
    case False
    with "1.prems" show ?thesis by (auto simp: nonoverlap_loop.simps[of xr yr m d xy niter g])
  next
    case True
    obtain x_new g1 where x: "uniform_draws (fst xr) (snd xr) m g = (x_new, g1)"
      by (cases "uniform_draws (fst xr) (snd xr) m g") auto
    obtain y_new g2 where y: "uniform_draws (fst yr) (snd yr) m g1 = (y_new, g2)"
      by (cases "uniform_draws (fst yr) (snd yr) m g1") auto
    define pool where "pool = (if niter = 1 then zip x_new y_new else xy @ zip x_new y_new)"
    define kept where "kept = filter (\<lambda>p. separated d (second_nearest pool p)) pool"
    have step: "nonoverlap_loop xr yr m d xy niter g = nonoverlap_loop xr yr m d kept (niter + 1) g2"
      using True x y
      by (simp add: nonoverlap_loop.simps[of xr yr m d xy niter g] Let_def kept_filter
                    pool_def kept_def)
    from True have c: "length xy < m" "\<not> 20 < niter" by simp_all
    have k: "all_separated d kept" unfolding kept_def by (rule kept_separated)
    have "all_separated d (fst (nonoverlap_loop xr yr m d kept (niter + 1) g2))"
      using "1.IH"[OF c x[symmetric] y[symmetric] refl refl refl refl] k
      by (simp add: kept_def pool_def kept_filter)
    with step show ?thesis by simp
  qed
qed

lemma all_separated_take: "all_separated d xy \<Longrightarrow> all_separated d (take n xy)"
  by (simp add: all_separated_def)

lemma nonoverlap_loop_rounds:
  "niter \<le> 21 \<Longrightarrow>
   fst (snd (nonoverlap_loop xr yr m d xy niter g)) \<le> 21
   \<and> (length (fst (nonoverlap_loop xr yr m d xy niter g)) < m
        \<longrightarrow> fst (snd (nonoverlap_loop xr yr m d xy niter g)) = 21)"
proof (induction xr yr m d xy niter g rule: nonoverlap_loop.induct)
  case (1 xr yr m d xy niter g)
  show ?case
  proof (cases "length xy < m \<and> \<not> niter > 20")
    case False
    with "1.prems" show ?thesis by (auto simp: nonoverlap_loop.simps[of xr yr m d xy niter g])
  next
    case True
    obtain x_new g1 where x: "uniform_draws (fst xr) (snd xr) m g = (x_new, g1)"
      by (cases "uniform_draws (fst xr) (snd xr) m g") auto
    obtain y_new g2 where y: "uniform_draws (fst yr) (snd yr) m g1 = (y_new, g2)"
      by (cases "uniform_draws (fst yr) (snd yr) m g1") auto
    define pool where "pool = (if niter = 1 then zip x_new y_new else xy @ zip x_new y_new)"
    define kept where "kept = filter (\<lambda>p. separated d (second_nearest pool p)) pool"
    have step: "nonoverlap_loop xr yr m d xy niter g = nonoverlap_loop xr yr m d kept (niter + 1) g2"
      using True x y
      by (simp add: nonoverlap_loop.simps[of xr yr m d xy niter g] Let_def kept_filter
                    pool_def kept_def)
    from True have c: "length xy < m" "\<not> 20 < niter" by simp_all
    then have n: "niter + 1 \<le> 21" by simp
    have "fst (snd (nonoverlap_loop xr yr m d kept (niter + 1) g2)) \<le> 21
      \<and> (length (fst (nonoverlap_loop xr yr m d kept (niter + 1) g2)) < m
        \<longrightarrow> fst (snd (nonoverlap_loop xr yr m d kept (niter + 1) g2)) = 21)"
      using "1.IH"[OF c x[symmetric] y[symmetric] refl refl refl refl] n
      by (simp add: kept_def pool_def kept_filter)
    with step show ?thesis by simp
  qed
qed

text \<open>
  C2. Any two coordinates that \<open>_make_nonoverlap_coords\<close> returns at different positions
  are at least \<open>min_separation\<close> apart, and there are at most \<open>ncoords\<close> of them. This holds
  for every sequence of random draws.
\<close>

theorem make_nonoverlap_coords_separated:
  "(\<forall>i < length (fst (make_nonoverlap_coords xrange yrange ncoords min_separation g)).
    \<forall>j < length (fst (make_nonoverlap_coords xrange yrange ncoords min_separation g)).
      i \<noteq> j \<longrightarrow>
      min_separation \<le> distance (fst (make_nonoverlap_coords xrange yrange ncoords min_separation g) ! i)
                                (fst (make_nonoverlap_coords xrange yrange ncoords min_separation g) ! j))
   \<and> length (fst (make_nonoverlap_coords xrange yrange ncoords min_separation g)) \<le> ncoords"
proof -
  have "all_separated min_separation []" by (simp add: all_separated_def)
  then have "all_separated min_separation
      (fst (nonoverlap_loop xrange yrange ncoords min_separation [] 1 g))"
    by (rule nonoverlap_loop_separated)
  then have "all_separated min_separation
      (take ncoords (fst (nonoverlap_loop xrange yrange ncoords min_separation [] 1 g)))"
    by (rule all_separated_take)
  moreover have "fst (make_nonoverlap_coords xrange yrange ncoords min_separation g)
      = take ncoords (fst (nonoverlap_loop xrange yrange ncoords min_separation [] 1 g))"
    by (simp add: make_nonoverlap_coords_def split_beta Let_def)
  ultimately show ?thesis by (simp add: all_separated_def)
qed

theorem make_nonoverlap_coords_separated_witness:
  "(0::nat) < length (fst (make_nonoverlap_coords (0, 1) (0, 0) 2 1 \<lparr>variates = real, pos = 0\<rparr>))
   \<and> (1::nat) < length (fst (make_nonoverlap_coords (0, 1) (0, 0) 2 1 \<lparr>variates = real, pos = 0\<rparr>))
   \<and> (0::nat) \<noteq> 1
   \<and> 1 \<le> distance (fst (make_nonoverlap_coords (0, 1) (0, 0) 2 1 \<lparr>variates = real, pos = 0\<rparr>) ! 0)
                    (fst (make_nonoverlap_coords (0, 1) (0, 0) 2 1 \<lparr>variates = real, pos = 0\<rparr>) ! 1)
   \<and> length (fst (make_nonoverlap_coords (0, 1) (0, 0) 2 1 \<lparr>variates = real, pos = 0\<rparr>)) \<le> 2"
proof -
  have v: "make_nonoverlap_coords (0, 1) (0, 0) 2 1 \<lparr>variates = real, pos = 0\<rparr>
      = ([(0, 0), (1, 0)], False, 1)"
    by (simp add: make_nonoverlap_coords_def nonoverlap_loop.simps uniform_draws_def
                  second_nearest_def distance_def Let_def upt_rec)
  then have len: "(0::nat) < length (fst (make_nonoverlap_coords (0, 1) (0, 0) 2 1 \<lparr>variates = real, pos = 0\<rparr>))"
    "(1::nat) < length (fst (make_nonoverlap_coords (0, 1) (0, 0) 2 1 \<lparr>variates = real, pos = 0\<rparr>))"
    by simp_all
  note t = make_nonoverlap_coords_separated
             [of "(0, 1)" "(0, 0)" 2 1 "\<lparr>variates = real, pos = 0\<rparr>"]
  from t have "1 \<le> distance (fst (make_nonoverlap_coords (0, 1) (0, 0) 2 1 \<lparr>variates = real, pos = 0\<rparr>) ! 0)
                    (fst (make_nonoverlap_coords (0, 1) (0, 0) 2 1 \<lparr>variates = real, pos = 0\<rparr>) ! 1)"
    using len by (metis zero_neq_one)
  with t len show ?thesis by simp
qed


text \<open>
  C7. The loop of \<open>_make_nonoverlap_coords\<close> goes through at most 20 rounds and the
  function returns, for every input. What it returns is the pool of accepted coordinates cut
  to \<open>ncoords\<close>, and it warns exactly when it returns fewer than \<open>ncoords\<close>. If the pool
  holds fewer than \<open>ncoords\<close> when the loop ends, then the loop went through all 20
  rounds, the whole pool is returned and the warning is given.
\<close>

theorem make_nonoverlap_coords_capped:
  "snd (snd (make_nonoverlap_coords xrange yrange ncoords min_separation g)) \<le> 20
   \<and> fst (make_nonoverlap_coords xrange yrange ncoords min_separation g)
       = take ncoords (fst (nonoverlap_loop xrange yrange ncoords min_separation [] 1 g))
   \<and> (fst (snd (make_nonoverlap_coords xrange yrange ncoords min_separation g))
        \<longleftrightarrow> length (fst (make_nonoverlap_coords xrange yrange ncoords min_separation g)) < ncoords)
   \<and> (length (fst (nonoverlap_loop xrange yrange ncoords min_separation [] 1 g)) < ncoords \<longrightarrow>
        snd (snd (make_nonoverlap_coords xrange yrange ncoords min_separation g)) = 20
        \<and> fst (make_nonoverlap_coords xrange yrange ncoords min_separation g)
            = fst (nonoverlap_loop xrange yrange ncoords min_separation [] 1 g)
        \<and> fst (snd (make_nonoverlap_coords xrange yrange ncoords min_separation g)))"
proof -
  have "(1::nat) \<le> 21" by simp
  from nonoverlap_loop_rounds[OF this, of xrange yrange ncoords min_separation "[]" g]
  show ?thesis
    by (auto simp: make_nonoverlap_coords_def split_beta Let_def)
qed

theorem make_nonoverlap_coords_capped_witness:
  "length (fst (nonoverlap_loop (0, 0) (0, 0) 2 1 [] 1 \<lparr>variates = real, pos = 0\<rparr>)) < 2
   \<and> snd (snd (make_nonoverlap_coords (0, 0) (0, 0) 2 1 \<lparr>variates = real, pos = 0\<rparr>)) = 20
   \<and> fst (make_nonoverlap_coords (0, 0) (0, 0) 2 1 \<lparr>variates = real, pos = 0\<rparr>)
        = fst (nonoverlap_loop (0, 0) (0, 0) 2 1 [] 1 \<lparr>variates = real, pos = 0\<rparr>)
   \<and> fst (snd (make_nonoverlap_coords (0, 0) (0, 0) 2 1 \<lparr>variates = real, pos = 0\<rparr>))"
proof -
  have "fst (nonoverlap_loop (0, 0) (0, 0) 2 1 [] 1 \<lparr>variates = real, pos = 0\<rparr>) = []"
    by (simp add: nonoverlap_loop.simps uniform_draws_def second_nearest_def distance_def
                  Let_def upt_rec)
  then have h: "length (fst (nonoverlap_loop (0, 0) (0, 0) 2 1 [] 1 \<lparr>variates = real, pos = 0\<rparr>)) < 2"
    by simp
  from make_nonoverlap_coords_capped [of "(0, 0)" "(0, 0)" 2 1 "\<lparr>variates = real, pos = 0\<rparr>"] h
  show ?thesis by blast
qed


subsection \<open>Flux and amplitude\<close>








end
